theory Spec2Isabelle
  imports Complex_Main
begin

section \<open>Numeric model\<close>

text \<open>
  The package computes on numpy arrays of 64-bit floats. A float is modelled as an exact
  real number or one of the three special values of IEEE 754: the two infinities and
  NaN. Arithmetic on finite values is exact (rounding and overflow of finite results are
  not modelled); the special values arise where IEEE arithmetic produces them from
  finite operands (division by zero, logarithm or power outside the domain) and they
  propagate by the IEEE rules. There is one zero, which behaves as \<open>+0.0\<close>: every zero
  divisor of the code is a difference \<open>x - x\<close> or a square root, both \<open>+0.0\<close>.
\<close>

datatype fval = Fin real | PInf | NInf | NaN

fun is_fin :: "fval \<Rightarrow> bool" where
  "is_fin (Fin x) = True"
| "is_fin PInf = False"
| "is_fin NInf = False"
| "is_fin NaN = False"

fun fneg :: "fval \<Rightarrow> fval" where
  "fneg (Fin x) = Fin (- x)"
| "fneg PInf = NInf"
| "fneg NInf = PInf"
| "fneg NaN = NaN"

fun fadd :: "fval \<Rightarrow> fval \<Rightarrow> fval" where
  "fadd (Fin a) (Fin b) = Fin (a + b)"
| "fadd (Fin a) PInf = PInf"
| "fadd (Fin a) NInf = NInf"
| "fadd PInf (Fin b) = PInf"
| "fadd PInf PInf = PInf"
| "fadd PInf NInf = NaN"
| "fadd NInf (Fin b) = NInf"
| "fadd NInf NInf = NInf"
| "fadd NInf PInf = NaN"
| "fadd NaN y = NaN"
| "fadd (Fin a) NaN = NaN"
| "fadd PInf NaN = NaN"
| "fadd NInf NaN = NaN"

definition fsub :: "fval \<Rightarrow> fval \<Rightarrow> fval" where
  "fsub x y = fadd x (fneg y)"

text \<open>The sign of a product or quotient with an infinite operand.\<close>

definition signed_inf :: "bool \<Rightarrow> fval" where
  "signed_inf positive = (if positive then PInf else NInf)"

fun fmul :: "fval \<Rightarrow> fval \<Rightarrow> fval" where
  "fmul (Fin a) (Fin b) = Fin (a * b)"
| "fmul (Fin a) PInf = (if a = 0 then NaN else signed_inf (0 < a))"
| "fmul (Fin a) NInf = (if a = 0 then NaN else signed_inf (a < 0))"
| "fmul PInf (Fin b) = (if b = 0 then NaN else signed_inf (0 < b))"
| "fmul NInf (Fin b) = (if b = 0 then NaN else signed_inf (b < 0))"
| "fmul PInf PInf = PInf"
| "fmul PInf NInf = NInf"
| "fmul NInf PInf = NInf"
| "fmul NInf NInf = PInf"
| "fmul NaN y = NaN"
| "fmul (Fin a) NaN = NaN"
| "fmul PInf NaN = NaN"
| "fmul NInf NaN = NaN"

fun fdiv :: "fval \<Rightarrow> fval \<Rightarrow> fval" where
  "fdiv (Fin a) (Fin b) =
     (if b = 0 then (if a = 0 then NaN else signed_inf (0 < a)) else Fin (a / b))"
| "fdiv (Fin a) PInf = Fin 0"
| "fdiv (Fin a) NInf = Fin 0"
| "fdiv PInf (Fin b) = signed_inf (0 \<le> b)"
| "fdiv NInf (Fin b) = signed_inf (b < 0)"
| "fdiv PInf PInf = NaN"
| "fdiv PInf NInf = NaN"
| "fdiv NInf PInf = NaN"
| "fdiv NInf NInf = NaN"
| "fdiv NaN y = NaN"
| "fdiv (Fin a) NaN = NaN"
| "fdiv PInf NaN = NaN"
| "fdiv NInf NaN = NaN"

text \<open>The comparison \<open><\<close>: false as soon as one operand is NaN.\<close>

fun flt :: "fval \<Rightarrow> fval \<Rightarrow> bool" where
  "flt (Fin a) (Fin b) = (a < b)"
| "flt (Fin a) PInf = True"
| "flt NInf (Fin b) = True"
| "flt NInf PInf = True"
| "flt x y = False"

fun fsqrt :: "fval \<Rightarrow> fval" where
  "fsqrt (Fin x) = (if x < 0 then NaN else Fin (sqrt x))"
| "fsqrt PInf = PInf"
| "fsqrt NInf = NaN"
| "fsqrt NaN = NaN"


section \<open>Errors and array primitives\<close>

text \<open>
  The exceptions the modelled code can raise: \<open>ValueError\<close> (a reduction over an empty
  array, an out-of-bounds \<open>kth\<close>) and \<open>IndexError\<close>. The package defines no exception
  of its own and contains no \<open>raise\<close> statement.
\<close>

datatype error = ValueError | IndexError

definition ebind :: "error + 'a \<Rightarrow> ('a \<Rightarrow> error + 'b) \<Rightarrow> error + 'b" where
  "ebind r f = (case r of Inl e \<Rightarrow> Inl e | Inr v \<Rightarrow> f v)"

text \<open>
  Python's builtin \<open>min\<close> and \<open>max\<close>, which \<open>zero_norm\<close> calls on the array: the first
  element is the candidate, and a later item replaces it when \<open>item < candidate\<close>
  (respectively \<open>item > candidate\<close>). An empty argument raises \<open>ValueError\<close>.
\<close>

definition py_min :: "fval list \<Rightarrow> error + fval" where
  "py_min arr = (case arr of [] \<Rightarrow> Inl ValueError
     | x # xs \<Rightarrow> Inr (foldl (\<lambda>cur item. if flt item cur then item else cur) x xs))"

definition py_max :: "fval list \<Rightarrow> error + fval" where
  "py_max arr = (case arr of [] \<Rightarrow> Inl ValueError
     | x # xs \<Rightarrow> Inr (foldl (\<lambda>cur item. if flt cur item then item else cur) x xs))"

definition np_sum :: "fval list \<Rightarrow> fval" where
  "np_sum arr = foldl fadd (Fin 0) arr"

text \<open>
  Elementwise addition of two arrays of the same shape. (Every sum in the kernel
  functions adds arrays of length \<open>L\<close>, so numpy's broadcasting never comes into play.)
\<close>

definition np_add :: "fval list \<Rightarrow> fval list \<Rightarrow> fval list" where
  "np_add xs ys = map2 fadd xs ys"

text \<open>The slice assignments \<open>res[k:] = v\<close> and \<open>res[:k] = v\<close> for \<open>k \<ge> 0\<close>.\<close>

definition fill_from :: "nat \<Rightarrow> 'a \<Rightarrow> 'a list \<Rightarrow> 'a list" where
  "fill_from k v res = take k res @ replicate (length res - k) v"

definition fill_upto :: "nat \<Rightarrow> 'a \<Rightarrow> 'a list \<Rightarrow> 'a list" where
  "fill_upto k v res = replicate (min k (length res)) v @ drop k res"

section \<open>utils.py: zero_norm\<close>

text \<open>
  \<^verbatim>\<open>arr = 2 * (arr - min(arr)) / (max(arr) - min(arr)) - 1\<close>, then
  \<^verbatim>\<open>return arr - np.sum(arr) / len(arr)\<close>. There is no guard on \<open>max(arr) - min(arr)\<close>.
\<close>

definition zero_norm :: "fval list \<Rightarrow> error + fval list" where
  "zero_norm arr =
     ebind (py_min arr) (\<lambda>mn.
     ebind (py_max arr) (\<lambda>mx.
       let arr1 = map (\<lambda>x. fsub (fdiv (fmul (Fin 2) (fsub x mn)) (fsub mx mn)) (Fin 1)) arr
       in Inr (map (\<lambda>x. fsub x (fdiv (np_sum arr1) (Fin (real (length arr1))))) arr1)))"

section \<open>kernel_functions.py\<close>

text \<open>
  The window size \<open>L\<close> is a natural number; the shape parameter and the end points of
  the sampled interval are finite reals. A kernel function returns the array, or the
  \<open>ValueError\<close> that \<open>zero_norm\<close> raises on an empty array.
\<close>

definition haar :: "nat \<Rightarrow> bool \<Rightarrow> error + fval list" where
  "haar L zn =
     (let res = map (fmul (Fin (- 1))) (replicate L (Fin 1));
          res = fill_from (length res div 2) (Fin 1) res
      in if zn then zero_norm res else Inr res)"

text \<open>
  \<open>np.linspace(startpt, endpt, L)\<close>: \<open>L\<close> evenly spaced samples, both end points
  included; a single sample is \<open>startpt\<close>.
\<close>

definition np_linspace :: "real \<Rightarrow> real \<Rightarrow> nat \<Rightarrow> real list" where
  "np_linspace startpt endpt L =
     (if L = 1 then [startpt]
      else map (\<lambda>i. startpt + real i * ((endpt - startpt) / real (L - 1))) [0..<L])"

text \<open>
  \<open>x ** p\<close> on a finite float \<open>x\<close> with a finite exponent: \<open>x ** 0\<close> is 1; a zero base
  with a negative exponent gives infinity; a negative base with a fractional exponent
  gives NaN.
\<close>

definition np_power :: "real \<Rightarrow> real \<Rightarrow> fval" where
  "np_power x p =
     (if p = 0 then Fin 1
      else if 0 < x then Fin (x powr p)
      else if x = 0 then (if 0 < p then Fin 0 else PInf)
      else if p = of_int \<lfloor>p\<rfloor> then Fin (x powi \<lfloor>p\<rfloor>)
      else NaN)"

definition power_law_zero_cusp ::
  "nat \<Rightarrow> real \<Rightarrow> bool \<Rightarrow> real \<Rightarrow> real \<Rightarrow> error + fval list" where
  "power_law_zero_cusp L b zn startpt endpt =
     (let x = np_linspace startpt endpt L;
          res = map (\<lambda>v. np_power v (- b)) x;
          res = fill_upto (length res div 2) (Fin 0) res
      in if zn then zero_norm res else Inr res)"

definition power_law_cusp ::
  "nat \<Rightarrow> real \<Rightarrow> bool \<Rightarrow> real \<Rightarrow> real \<Rightarrow> error + fval list" where
  "power_law_cusp L b zn startpt endpt =
     ebind (power_law_zero_cusp L b zn startpt endpt) (\<lambda>p.
     ebind (power_law_zero_cusp L b zn startpt endpt) (\<lambda>q.
       let res = np_add p (rev q)
       in if zn then zero_norm res else Inr res))"

definition power_zero_cusp ::
  "nat \<Rightarrow> real \<Rightarrow> bool \<Rightarrow> real \<Rightarrow> real \<Rightarrow> error + fval list" where
  "power_zero_cusp L b zn startpt endpt =
     (let x = np_linspace startpt endpt L;
          res = map (\<lambda>v. np_power v b) x;
          res = fill_from (length res div 2) (Fin 0) res
      in if zn then zero_norm res else Inr res)"

definition power_cusp ::
  "nat \<Rightarrow> real \<Rightarrow> bool \<Rightarrow> real \<Rightarrow> real \<Rightarrow> error + fval list" where
  "power_cusp L b zn startpt endpt =
     ebind (power_zero_cusp L b zn startpt endpt) (\<lambda>p.
     ebind (power_zero_cusp L b zn startpt endpt) (\<lambda>q.
       let res = np_add p (rev q)
       in if zn then zero_norm res else Inr res))"

definition pitchfork ::
  "nat \<Rightarrow> real \<Rightarrow> bool \<Rightarrow> real \<Rightarrow> real \<Rightarrow> error + fval list" where
  "pitchfork L b zn startpt endpt =
     ebind (power_zero_cusp L (2 * b) zn startpt endpt) (\<lambda>p.
     ebind (power_cusp L b zn startpt endpt) (\<lambda>c.
     ebind (power_zero_cusp L (2 * b) zn startpt endpt) (\<lambda>q.
       let res = np_add (np_add (rev p) c) q
       in if zn then zero_norm res else Inr res)))"

definition exp_zero_cusp ::
  "nat \<Rightarrow> real \<Rightarrow> bool \<Rightarrow> real \<Rightarrow> real \<Rightarrow> error + fval list" where
  "exp_zero_cusp L a zn startpt endpt =
     (let x = np_linspace startpt endpt L;
          res = map (\<lambda>v. Fin (exp (a * v))) x;
          res = fill_from (length res div 2) (Fin 0) res
      in if zn then zero_norm res else Inr res)"

definition exp_cusp ::
  "nat \<Rightarrow> real \<Rightarrow> bool \<Rightarrow> real \<Rightarrow> real \<Rightarrow> error + fval list" where
  "exp_cusp L a zn startpt endpt =
     ebind (exp_zero_cusp L a zn startpt endpt) (\<lambda>p.
     ebind (exp_zero_cusp L a zn startpt endpt) (\<lambda>q.
       let res = np_add p (rev q)
       in if zn then zero_norm res else Inr res))"

section \<open>utils.py: diff\<close>


section \<open>utils.py: normalize, renormalize\<close>

text \<open>
  \<open>arr.mean()\<close> is the sum over the length (NaN for an empty array) and \<open>arr.std()\<close>
  the population standard deviation, the square root of the mean of the squared
  deviations from the mean.
\<close>

definition np_mean :: "fval list \<Rightarrow> fval" where
  "np_mean arr = fdiv (np_sum arr) (Fin (real (length arr)))"

definition np_std :: "fval list \<Rightarrow> fval" where
  "np_std arr =
     (let m = np_mean arr;
          x = map (\<lambda>v. fsub v m) arr
      in fsqrt (np_mean (map (\<lambda>v. fmul v v) x)))"

text \<open>
  \<open>normalize(arr, stats=False)\<close> returns the normalised array alone, and the triple
  only when \<open>stats\<close> is set.
\<close>

datatype norm_result = Normed "fval list" | NormedStats "fval list" fval fval

definition normalize_np :: "fval list \<Rightarrow> bool \<Rightarrow> norm_result" where
  "normalize_np arr stats =
     (let mean = np_mean arr;
          std = np_std arr;
          normed = map (\<lambda>x. fdiv (fsub x mean) std) arr
      in if \<not> stats then Normed normed else NormedStats normed mean std)"

definition renormalize :: "fval list \<Rightarrow> fval \<Rightarrow> fval \<Rightarrow> fval list" where
  "renormalize arr mean std = map (\<lambda>x. fdiv (fsub x mean) std) arr"

section \<open>utils.py: row_normalize, row_unnormalize\<close>





section \<open>utils.py: top_k\<close>

text \<open>
  \<open>np.argpartition(a, kth)\<close> first normalises \<open>kth\<close> (a negative one counts from the
  end) and raises \<open>ValueError\<close> when it is out of bounds, unless the array is empty
  (numpy skips the bounds check on an array of size 0). It then returns a permutation
  of the indices that puts the \<open>kth\<close> smallest entry in its sorted place, smaller ones
  before and larger ones after, in an order the selection algorithm decides. The model
  returns the stable ascending argsort, one such permutation.
\<close>

definition argsort :: "'a::linorder list \<Rightarrow> nat list" where
  "argsort a = map snd (sort_key fst (zip a [0..<length a]))"

definition np_argpartition :: "'a::linorder list \<Rightarrow> int \<Rightarrow> error + nat list" where
  "np_argpartition a kth =
     (let n = int (length a);
          kth = (if kth < 0 then kth + n else kth)
      in if a \<noteq> [] \<and> (kth < 0 \<or> n \<le> kth) then Inl ValueError else Inr (argsort a))"

text \<open>The slice \<open>xs[i:]\<close> for an integer \<open>i\<close>; a negative \<open>i\<close> counts from the end.\<close>

definition slice_from :: "int \<Rightarrow> 'a list \<Rightarrow> 'a list" where
  "slice_from i xs =
     (if i < 0 then drop (nat (int (length xs) + i)) xs else drop (nat i) xs)"

text \<open>Indexing an array with an array of indices: \<open>IndexError\<close> when one is out of bounds.\<close>

definition np_take :: "'a list \<Rightarrow> nat list \<Rightarrow> error + 'a list" where
  "np_take xs inds =
     (if list_all (\<lambda>i. i < length xs) inds then Inr (map (\<lambda>i. xs ! i) inds)
      else Inl IndexError)"

text \<open>
  \<open>sorted(top, key=..., reverse=True)\<close> is stable: it sorts the reversed list in
  ascending order and reverses the result.
\<close>

definition top_k :: "'a::linorder list \<Rightarrow> 'b list \<Rightarrow> int \<Rightarrow> error + ('b \<times> 'a) list" where
  "top_k indices words k =
     ebind (np_argpartition indices (- k)) (\<lambda>part.
       let inds = slice_from (- k) part
       in ebind (np_take words inds) (\<lambda>topkwords.
          ebind (np_take indices inds) (\<lambda>topkvals.
            let top = zip topkwords topkvals
            in Inr (rev (sort_key snd (rev top))))))"

section \<open>weighting_functions.py\<close>

text \<open>
  The module-level list \<open>registered_weighting_functions\<close> is the only state of the
  module. \<open>register_weighting_function\<close> takes the state and returns its result
  together with the new state.
\<close>

record 'f module_state =
  registered_weighting_functions :: "'f list"

definition register_weighting_function ::
  "'f \<Rightarrow> 'f module_state \<Rightarrow> 'f \<times> 'f module_state" where
  "register_weighting_function weighting_function st =
     (weighting_function,
      st\<lparr>registered_weighting_functions :=
           registered_weighting_functions st @ [weighting_function]\<rparr>)"

text \<open>
  \<open>np.max\<close> and \<open>np.min\<close>: \<open>ValueError\<close> on an empty array; NaN as soon as one entry
  is NaN.
\<close>

definition np_min :: "fval list \<Rightarrow> error + fval" where
  "np_min arr =
     (case arr of [] \<Rightarrow> Inl ValueError
      | x # xs \<Rightarrow> Inr (if NaN \<in> set arr then NaN
                       else foldl (\<lambda>cur item. if flt item cur then item else cur) x xs))"

definition np_max :: "fval list \<Rightarrow> error + fval" where
  "np_max arr =
     (case arr of [] \<Rightarrow> Inl ValueError
      | x # xs \<Rightarrow> Inr (if NaN \<in> set arr then NaN
                       else foldl (\<lambda>cur item. if flt cur item then item else cur) x xs))"


definition max_change :: "fval list \<Rightarrow> error + fval" where
  "max_change arr =
     ebind (np_max arr) (\<lambda>mx. ebind (np_min arr) (\<lambda>mn. Inr (fsub mx mn)))"



section \<open>Auxiliary notions for the proofs\<close>

text \<open>The value of \<open>zero_norm\<close> on an array of finite values that is not constant.\<close>

definition zero_norm_real :: "real list \<Rightarrow> real list" where
  "zero_norm_real rs =
     (let mn = Min (set rs); mx = Max (set rs);
          a = map (\<lambda>x. 2 * (x - mn) / (mx - mn) - 1) rs
      in map (\<lambda>x. x - sum_list a / real (length a)) a)"

definition the_fin :: "fval \<Rightarrow> real" where
  "the_fin v = (case v of Fin x \<Rightarrow> x | _ \<Rightarrow> 0)"

text \<open>
  The composition the specification states for the double-sided cusps: entry \<open>i\<close> of
  the half-shape plus entry \<open>i\<close> of its index-reversed copy.
\<close>

definition reverse_sum :: "fval list \<Rightarrow> fval list" where
  "reverse_sum h = map (\<lambda>i. fadd (h ! i) (h ! (length h - 1 - i))) [0..<length h]"

text \<open>
  What every kernel function returns for \<open>L \<ge> 1\<close>: an array of length \<open>L\<close> that, with
  \<open>zn\<close> set, is the value of a final call of \<open>zero_norm\<close>.
\<close>

definition kernel_result :: "nat \<Rightarrow> bool \<Rightarrow> error + fval list \<Rightarrow> bool" where
  "kernel_result L zn r =
     (\<exists>k. r = Inr k \<and> length k = L \<and> (zn \<longrightarrow> (\<exists>res. zero_norm res = Inr k)))"

text \<open>Mean and population standard deviation of a list of reals.\<close>

definition mean_real :: "real list \<Rightarrow> real" where
  "mean_real rs = sum_list rs / real (length rs)"

definition std_real :: "real list \<Rightarrow> real" where
  "std_real rs = sqrt (mean_real (map (\<lambda>x. (x - mean_real rs) * (x - mean_real rs)) rs))"

section \<open>Finite arrays\<close>

lemma ebind_Inr [simp]: "ebind (Inr v) f = f v"
  by (simp add: ebind_def)

lemma ebind_Inl [simp]: "ebind (Inl e) f = Inl e"
  by (simp add: ebind_def)

lemma fsub_Fin [simp]: "fsub (Fin a) (Fin b) = Fin (a - b)"
  by (simp add: fsub_def)

lemma foldl_min_Fin:
  "foldl (\<lambda>cur item. if flt item cur then item else cur) (Fin c) (map Fin rs)
     = Fin (fold min rs c)"
  by (induction rs arbitrary: c) (auto simp: min_def)

lemma foldl_max_Fin:
  "foldl (\<lambda>cur item. if flt cur item then item else cur) (Fin c) (map Fin rs)
     = Fin (fold max rs c)"
  by (induction rs arbitrary: c) (auto simp: max_def)

lemma py_min_Fin: "rs \<noteq> [] \<Longrightarrow> py_min (map Fin rs) = Inr (Fin (Min (set rs)))"
  using Min.set_eq_fold [of "hd rs" "tl rs"]
  by (cases rs) (simp_all add: py_min_def foldl_min_Fin)

lemma py_max_Fin: "rs \<noteq> [] \<Longrightarrow> py_max (map Fin rs) = Inr (Fin (Max (set rs)))"
  using Max.set_eq_fold [of "hd rs" "tl rs"]
  by (cases rs) (simp_all add: py_max_def foldl_max_Fin)

lemma foldl_fadd_Fin: "foldl fadd (Fin c) (map Fin rs) = Fin (c + sum_list rs)"
  by (induction rs arbitrary: c) (simp_all add: add.assoc)

lemma np_sum_Fin: "np_sum (map Fin rs) = Fin (sum_list rs)"
  by (simp add: np_sum_def foldl_fadd_Fin)


lemma rescale_Fin:
  "d \<noteq> 0 \<Longrightarrow>
   map (\<lambda>x. fsub (fdiv (fmul (Fin 2) (fsub x (Fin mn))) (Fin d)) (Fin 1)) (map Fin rs)
     = map Fin (map (\<lambda>x. 2 * (x - mn) / d - 1) rs)"
  by simp

lemma centre_Fin:
  "as \<noteq> [] \<Longrightarrow>
   map (\<lambda>x. fsub x (fdiv (np_sum (map Fin as)) (Fin (real (length (map Fin as))))))
     (map Fin as)
     = map Fin (map (\<lambda>x. x - sum_list as / real (length as)) as)"
  by (simp add: np_sum_Fin)

lemma zero_norm_Fin:
  assumes "rs \<noteq> []" and "Max (set rs) \<noteq> Min (set rs)"
  shows "zero_norm (map Fin rs) = Inr (map Fin (zero_norm_real rs))"
proof -
  let ?mn = "Min (set rs)" and ?mx = "Max (set rs)"
  let ?a = "map (\<lambda>x. 2 * (x - ?mn) / (?mx - ?mn) - 1) rs"
  have d: "?mx - ?mn \<noteq> 0"
    using assms(2) by simp
  have a: "?a \<noteq> []"
    using assms(1) by simp
  show ?thesis
    unfolding zero_norm_def zero_norm_real_def Let_def
    by (simp only: py_min_Fin [OF assms(1)] py_max_Fin [OF assms(1)] ebind_Inr fsub_Fin
          rescale_Fin [OF d] centre_Fin [OF a])
qed

lemma sum_list_sub_const:
  "sum_list (map (\<lambda>x. x - c) xs) = sum_list xs - real (length xs) * (c::real)"
  by (induction xs) (simp_all add: algebra_simps)

lemma sum_list_centred:
  "as \<noteq> [] \<Longrightarrow> sum_list (map (\<lambda>x. x - sum_list as / real (length as)) as) = (0::real)"
  by (simp add: sum_list_sub_const)

lemma zero_norm_real_sum: "rs \<noteq> [] \<Longrightarrow> sum_list (zero_norm_real rs) = 0"
  unfolding zero_norm_real_def Let_def
  by (rule sum_list_centred) simp

lemma length_zero_norm_real [simp]: "length (zero_norm_real rs) = length rs"
  by (simp add: zero_norm_real_def Let_def)


lemma sum_list_bounds:
  "\<forall>x\<in>set as. lo \<le> x \<and> x \<le> (hi::real) \<Longrightarrow>
   real (length as) * lo \<le> sum_list as \<and> sum_list as \<le> real (length as) * hi"
  by (induction as) (auto simp: algebra_simps)

lemma mean_bounds:
  assumes "as \<noteq> []" and "\<forall>x\<in>set as. lo \<le> x \<and> x \<le> (hi::real)"
  shows "lo \<le> sum_list as / real (length as) \<and> sum_list as / real (length as) \<le> hi"
proof -
  have n: "0 < real (length as)"
    using assms(1) by simp
  from sum_list_bounds [OF assms(2)] n show ?thesis
    by (simp add: field_simps)
qed

lemma rescaled_bounds:
  assumes "x \<in> set (rs::real list)" and "Max (set rs) \<noteq> Min (set rs)"
  shows "- 1 \<le> 2 * (x - Min (set rs)) / (Max (set rs) - Min (set rs)) - 1
       \<and> 2 * (x - Min (set rs)) / (Max (set rs) - Min (set rs)) - 1 \<le> 1"
proof -
  have lo: "Min (set rs) \<le> x" and hi: "x \<le> Max (set rs)"
    using assms(1) by simp_all
  then have "Min (set rs) < Max (set rs)"
    using assms(2) by (simp add: less_le)
  with lo hi show ?thesis
    by (simp add: field_simps)
qed

lemma zero_norm_real_range:
  assumes "Max (set rs) \<noteq> Min (set rs)" and "v \<in> set (zero_norm_real rs)"
  shows "- 2 \<le> v \<and> v \<le> 2"
proof -
  let ?g = "\<lambda>x. 2 * (x - Min (set rs)) / (Max (set rs) - Min (set rs)) - 1"
  let ?a = "map ?g rs"
  let ?m = "sum_list ?a / real (length ?a)"
  from assms(2) obtain x where x: "x \<in> set rs" and v: "v = ?g x - ?m"
    by (auto simp: zero_norm_real_def Let_def)
  then have ne: "?a \<noteq> []"
    by auto
  have "\<forall>y\<in>set ?a. - 1 \<le> y \<and> y \<le> 1"
    using rescaled_bounds [OF _ assms(1)] by auto
  from mean_bounds [OF ne this] have "- 1 \<le> ?m \<and> ?m \<le> 1" .
  moreover have "- 1 \<le> ?g x \<and> ?g x \<le> 1"
    by (rule rescaled_bounds [OF x assms(1)])
  ultimately show ?thesis
    unfolding v by linarith
qed

section \<open>What a finite result of zero_norm says about its argument\<close>

lemma is_fin_fsub: "is_fin (fsub a b) \<Longrightarrow> is_fin a \<and> is_fin b"
  by (cases a; cases b) (simp_all add: fsub_def)

lemma is_fin_fdiv: "is_fin (fdiv a b) \<Longrightarrow> is_fin a \<and> b \<noteq> Fin 0"
  by (cases a; cases b) (auto simp: signed_inf_def split: if_splits)

lemma is_fin_fmul2: "is_fin (fmul (Fin 2) a) \<Longrightarrow> is_fin a"
  by (cases a) (simp_all add: signed_inf_def)

lemma all_fin_map: "list_all is_fin xs \<Longrightarrow> xs = map Fin (map the_fin xs)"
proof (induction xs)
  case Nil
  show ?case by simp
next
  case (Cons x xs)
  then show ?case
    by (cases x) (simp_all add: the_fin_def)
qed

lemma py_min_nonempty: "arr \<noteq> [] \<Longrightarrow> \<exists>mn. py_min arr = Inr mn"
  by (cases arr) (simp_all add: py_min_def)

lemma py_max_nonempty: "arr \<noteq> [] \<Longrightarrow> \<exists>mx. py_max arr = Inr mx"
  by (cases arr) (simp_all add: py_max_def)

lemma zero_norm_empty: "zero_norm [] = Inl ValueError"
  by (simp add: zero_norm_def py_min_def)

lemma zero_norm_length:
  assumes "arr \<noteq> []"
  shows "\<exists>k. zero_norm arr = Inr k \<and> length k = length arr"
proof -
  from py_min_nonempty [OF assms] obtain mn where mn: "py_min arr = Inr mn" ..
  from py_max_nonempty [OF assms] obtain mx where mx: "py_max arr = Inr mx" ..
  show ?thesis
    by (simp add: zero_norm_def mn mx Let_def)
qed

lemma zero_norm_finite_out:
  assumes "zero_norm arr = Inr k" and "list_all is_fin k"
  shows "\<exists>rs. rs \<noteq> [] \<and> Max (set rs) \<noteq> Min (set rs) \<and> arr = map Fin rs
            \<and> k = map Fin (zero_norm_real rs)"
proof -
  have ne: "arr \<noteq> []"
    using assms(1) by (auto simp: zero_norm_empty)
  from py_min_nonempty [OF ne] obtain mn where mn: "py_min arr = Inr mn" ..
  from py_max_nonempty [OF ne] obtain mx where mx: "py_max arr = Inr mx" ..
  let ?g = "\<lambda>x. fsub (fdiv (fmul (Fin 2) (fsub x mn)) (fsub mx mn)) (Fin 1)"
  obtain c where k: "k = map (\<lambda>x. fsub (?g x) c) arr"
    using assms(1) by (auto simp: zero_norm_def mn mx Let_def comp_def)
  have each: "is_fin x \<and> fsub mx mn \<noteq> Fin 0" if "x \<in> set arr" for x
  proof -
    have "is_fin (fsub (?g x) c)"
      using assms(2) that unfolding k by (simp add: list_all_iff)
    then have "is_fin (fdiv (fmul (Fin 2) (fsub x mn)) (fsub mx mn))"
      using is_fin_fsub by blast
    then have "is_fin (fmul (Fin 2) (fsub x mn))" and d: "fsub mx mn \<noteq> Fin 0"
      using is_fin_fdiv by blast+
    then have "is_fin (fsub x mn)"
      using is_fin_fmul2 by blast
    then show ?thesis
      using is_fin_fsub d by blast
  qed
  then have "list_all is_fin arr"
    by (simp add: list_all_iff)
  from all_fin_map [OF this] obtain rs where rs: "arr = map Fin rs" ..
  have rne: "rs \<noteq> []"
    using ne rs by simp
  have "mn = Fin (Min (set rs))" and "mx = Fin (Max (set rs))"
    using mn mx py_min_Fin [OF rne] py_max_Fin [OF rne] unfolding rs by simp_all
  moreover have "fsub mx mn \<noteq> Fin 0"
    using each ne by (cases arr) auto
  ultimately have neq: "Max (set rs) \<noteq> Min (set rs)"
    by auto
  from zero_norm_Fin [OF rne neq] assms(1) have "k = map Fin (zero_norm_real rs)"
    unfolding rs by simp
  with rne neq rs show ?thesis
    by blast
qed

lemma zero_norm_finite_props:
  assumes "zero_norm arr = Inr k" and "list_all is_fin k"
  shows "np_sum k = Fin 0 \<and> (\<forall>v\<in>set k. \<exists>x. v = Fin x \<and> - 2 \<le> x \<and> x \<le> 2)"
proof -
  from zero_norm_finite_out [OF assms] obtain rs where
    rs: "rs \<noteq> []" "Max (set rs) \<noteq> Min (set rs)" "k = map Fin (zero_norm_real rs)"
    by blast
  have "np_sum k = Fin 0"
    unfolding rs(3) by (simp add: np_sum_Fin zero_norm_real_sum [OF rs(1)])
  moreover have "\<exists>x. v = Fin x \<and> - 2 \<le> x \<and> x \<le> 2" if "v \<in> set k" for v
    using that zero_norm_real_range [OF rs(2)] unfolding rs(3) by auto
  ultimately show ?thesis
    by blast
qed

section \<open>Shape of the kernel functions' results\<close>

lemma length_np_linspace [simp]: "length (np_linspace s e L) = L"
  by (simp add: np_linspace_def)

lemma length_fill_from [simp]: "length (fill_from k v res) = length res"
  by (simp add: fill_from_def)

lemma length_fill_upto [simp]: "length (fill_upto k v res) = length res"
  by (simp add: fill_upto_def)

lemma length_np_add [simp]: "length (np_add xs ys) = min (length xs) (length ys)"
  by (simp add: np_add_def)

lemma kernel_result_finish:
  assumes "length res = L" and "0 < L"
  shows "kernel_result L zn (if zn then zero_norm res else Inr res)"
proof -
  have "res \<noteq> []"
    using assms by auto
  from zero_norm_length [OF this] assms(1) show ?thesis
    by (auto simp: kernel_result_def)
qed

lemma kernel_result_haar: "0 < L \<Longrightarrow> kernel_result L zn (haar L zn)"
  unfolding haar_def Let_def by (rule kernel_result_finish) simp_all

lemma kernel_result_power_law_zero_cusp:
  "0 < L \<Longrightarrow> kernel_result L zn (power_law_zero_cusp L b zn s e)"
  unfolding power_law_zero_cusp_def Let_def by (rule kernel_result_finish) simp_all

lemma kernel_result_power_zero_cusp:
  "0 < L \<Longrightarrow> kernel_result L zn (power_zero_cusp L b zn s e)"
  unfolding power_zero_cusp_def Let_def by (rule kernel_result_finish) simp_all

lemma kernel_result_exp_zero_cusp:
  "0 < L \<Longrightarrow> kernel_result L zn (exp_zero_cusp L a zn s e)"
  unfolding exp_zero_cusp_def Let_def by (rule kernel_result_finish) simp_all

lemma kernel_result_superpose:
  assumes "kernel_result L zn r" and "0 < L"
  shows "kernel_result L zn
           (ebind r (\<lambda>p. ebind r (\<lambda>q.
              let res = np_add p (rev q) in if zn then zero_norm res else Inr res)))"
proof -
  from assms(1) obtain k where k: "r = Inr k" "length k = L"
    by (auto simp: kernel_result_def)
  show ?thesis
    unfolding k(1) ebind_Inr Let_def
    by (rule kernel_result_finish) (simp_all add: k(2) assms(2))
qed

lemma kernel_result_power_law_cusp:
  "0 < L \<Longrightarrow> kernel_result L zn (power_law_cusp L b zn s e)"
  unfolding power_law_cusp_def
  by (rule kernel_result_superpose [OF kernel_result_power_law_zero_cusp])

lemma kernel_result_power_cusp:
  "0 < L \<Longrightarrow> kernel_result L zn (power_cusp L b zn s e)"
  unfolding power_cusp_def
  by (rule kernel_result_superpose [OF kernel_result_power_zero_cusp])

lemma kernel_result_exp_cusp:
  "0 < L \<Longrightarrow> kernel_result L zn (exp_cusp L a zn s e)"
  unfolding exp_cusp_def
  by (rule kernel_result_superpose [OF kernel_result_exp_zero_cusp])

lemma kernel_result_pitchfork:
  assumes "0 < L"
  shows "kernel_result L zn (pitchfork L b zn s e)"
proof -
  from kernel_result_power_zero_cusp [OF assms, of zn "2 * b" s e]
  obtain p where p: "power_zero_cusp L (2 * b) zn s e = Inr p" "length p = L"
    by (auto simp: kernel_result_def)
  from kernel_result_power_cusp [OF assms, of zn b s e]
  obtain c where c: "power_cusp L b zn s e = Inr c" "length c = L"
    by (auto simp: kernel_result_def)
  show ?thesis
    unfolding pitchfork_def p(1) c(1) ebind_Inr Let_def
    by (rule kernel_result_finish) (simp_all add: p(2) c(2) assms)
qed

lemma kernel_result_props:
  assumes "kernel_result L zn r"
  shows "\<exists>k. r = Inr k \<and> length k = L
           \<and> (zn \<longrightarrow> list_all is_fin k \<longrightarrow>
                np_sum k = Fin 0 \<and> (\<forall>v\<in>set k. \<exists>x. v = Fin x \<and> - 2 \<le> x \<and> x \<le> 2))"
proof -
  from assms obtain k where k: "r = Inr k" "length k = L"
      and z: "zn \<longrightarrow> (\<exists>res. zero_norm res = Inr k)"
    by (auto simp: kernel_result_def)
  have "np_sum k = Fin 0 \<and> (\<forall>v\<in>set k. \<exists>x. v = Fin x \<and> - 2 \<le> x \<and> x \<le> 2)"
    if "zn" and "list_all is_fin k"
  proof -
    from z that(1) obtain res where "zero_norm res = Inr k"
      by blast
    from zero_norm_finite_props [OF this that(2)] show ?thesis .
  qed
  with k show ?thesis
    by blast
qed

section \<open>Concrete kernels\<close>

lemma haar_three: "haar 3 True = Inr [Fin (- 4 / 3), Fin (2 / 3), Fin (2 / 3)]"
proof -
  have "fill_from 1 (Fin 1) [Fin (- 1), Fin (- 1), Fin (- 1)] = [Fin (- 1), Fin 1, Fin 1]"
    by (simp add: fill_from_def numeral_2_eq_2)
  moreover have "replicate 3 (Fin 1) = [Fin 1, Fin 1, Fin 1]"
    by (simp add: numeral_3_eq_3)
  ultimately show ?thesis
    by (simp add: haar_def zero_norm_def py_min_def py_max_def np_sum_def)
qed

lemma linspace_two: "np_linspace 1 4 2 = [1, 4]"
proof -
  have "[0..<2] = [0, Suc 0]"
    by (simp add: numeral_2_eq_2)
  then show ?thesis
    by (simp add: np_linspace_def)
qed

lemma power_law_zero_cusp_two: "power_law_zero_cusp 2 1 True 1 4 = Inr [Fin (- 1), Fin 1]"
  by (simp add: power_law_zero_cusp_def linspace_two np_power_def fill_upto_def powr_minus
        zero_norm_def py_min_def py_max_def np_sum_def)

lemma power_law_cusp_two: "power_law_cusp 2 1 True 1 4 = Inr [NaN, NaN]"
  by (simp add: power_law_cusp_def power_law_zero_cusp_two np_add_def
        zero_norm_def py_min_def py_max_def fsub_def)

lemma linspace_three: "np_linspace 1 4 3 = [1, 5 / 2, 4]"
proof -
  have "[0..<3] = [0, 1, 2]"
    by (simp add: upt_rec)
  then show ?thesis
    by (simp add: np_linspace_def)
qed

lemma power_zero_cusp_three:
  "power_zero_cusp 3 1 True 1 4 = Inr [Fin (4 / 3), Fin (- 2 / 3), Fin (- 2 / 3)]"
proof -
  have "fill_from 1 (Fin 0) [Fin 1, Fin (5 / 2), Fin 4] = [Fin 1, Fin 0, Fin 0]"
    by (simp add: fill_from_def numeral_2_eq_2)
  then show ?thesis
    by (simp add: power_zero_cusp_def linspace_three np_power_def
          zero_norm_def py_min_def py_max_def np_sum_def)
qed

lemma power_cusp_three:
  "power_cusp 3 1 True 1 4 = Inr [Fin (2 / 3), Fin (- 4 / 3), Fin (2 / 3)]"
  by (simp add: power_cusp_def power_zero_cusp_three np_add_def
        zero_norm_def py_min_def py_max_def np_sum_def)

lemma power_law_zero_cusp_two_raw:
  "power_law_zero_cusp 2 1 False 1 4 = Inr [Fin 0, Fin (1 / 4)]"
  by (simp add: power_law_zero_cusp_def linspace_two np_power_def fill_upto_def powr_minus
        divide_simps)

lemma np_add_rev: "np_add h (rev h) = reverse_sum h"
proof (rule nth_equalityI)
  show "length (np_add h (rev h)) = length (reverse_sum h)"
    by (simp add: np_add_def reverse_sum_def)
next
  fix i
  assume "i < length (np_add h (rev h))"
  then have i: "i < length h"
    by (simp add: np_add_def)
  then have "np_add h (rev h) ! i = fadd (h ! i) (rev h ! i)"
    by (simp add: np_add_def)
  also have "rev h ! i = h ! (length h - Suc i)"
    using i by (rule rev_nth)
  also have "length h - Suc i = length h - 1 - i"
    by simp
  also have "fadd (h ! i) (h ! (length h - 1 - i)) = reverse_sum h ! i"
    using i by (simp add: reverse_sum_def del: diff_diff_left)
  finally show "np_add h (rev h) ! i = reverse_sum h ! i" .
qed

section \<open>Claims about zero_norm and haar\<close>

lemma haar_raw:
  "haar L False = Inr (map Fin (replicate (L div 2) (- 1) @ replicate (L - L div 2) 1))"
  by (simp add: haar_def fill_from_def min_def)

lemma haar_zn:
  "haar L True = zero_norm (map Fin (replicate (L div 2) (- 1) @ replicate (L - L div 2) 1))"
  by (simp add: haar_def fill_from_def min_def)

lemma sum_list_replicate_real: "sum_list (replicate n (c::real)) = real n * c"
  by (induction n) (simp_all add: algebra_simps)

lemma zero_norm_real_step:
  assumes "2 \<le> L"
  shows "zero_norm_real (replicate (L div 2) (- 1) @ replicate (L - L div 2) 1)
       = replicate (L div 2) (- 1 - real (L mod 2) / real L)
         @ replicate (L - L div 2) (1 - real (L mod 2) / real L)"
proof -
  let ?k = "L div 2"
  let ?rs = "replicate ?k (- 1) @ replicate (L - ?k) (1::real)"
  have k: "0 < ?k" and lk: "0 < L - ?k"
    using assms by auto
  have set: "set ?rs = {- 1, 1}"
    using k lk by auto
  have mn: "Min (set ?rs) = - 1" and mx: "Max (set ?rs) = 1"
    unfolding set by simp_all
  have a: "map (\<lambda>x. 2 * (x - (- 1)) / (1 - (- 1)) - 1) ?rs = ?rs"
    by (simp add: field_simps)
  have "real L = 2 * real ?k + real (L mod 2)"
    by (metis mult_div_mod_eq of_nat_add of_nat_mult of_nat_numeral)
  then have sum: "sum_list ?rs = real (L mod 2)"
    using assms by (simp add: sum_list_replicate_real of_nat_diff)
  have len: "length ?rs = L"
    by simp
  show ?thesis
    unfolding zero_norm_real_def Let_def mn mx a sum len
    by simp
qed





text \<open>
  Claim C8. For \<open>L \<ge> 2\<close> the haar kernel before normalisation is \<open>L div 2\<close> entries
  \<open>-1\<close> followed by \<open>L - L div 2\<close> entries \<open>+1\<close>; after zero-normalisation the first
  \<open>L div 2\<close> entries share one value, the remaining entries share another, and the
  first is strictly smaller (the values are \<open>-1 - m\<close> and \<open>1 - m\<close> with
  \<open>m = (L mod 2) / L\<close>).
\<close>

theorem haar_halves:
  assumes "2 \<le> L"
  shows "haar L False
           = Inr (replicate (L div 2) (Fin (- 1)) @ replicate (L - L div 2) (Fin 1))
       \<and> haar L True
           = Inr (replicate (L div 2) (Fin (- 1 - real (L mod 2) / real L))
                  @ replicate (L - L div 2) (Fin (1 - real (L mod 2) / real L)))
       \<and> - 1 - real (L mod 2) / real L < 1 - real (L mod 2) / real L"
proof -
  let ?rs = "replicate (L div 2) (- 1) @ replicate (L - L div 2) (1::real)"
  have k: "0 < L div 2" and lk: "0 < L - L div 2"
    using assms by auto
  then have "set ?rs = {- 1, 1}"
    by auto
  then have "?rs \<noteq> []" and "Max (set ?rs) \<noteq> Min (set ?rs)"
    by auto
  from zero_norm_Fin [OF this]
  have "haar L True = Inr (map Fin (zero_norm_real ?rs))"
    by (simp only: haar_zn)
  then show ?thesis
    by (simp add: haar_raw zero_norm_real_step [OF assms])
qed

theorem haar_halves_witness:
  "(2::nat) \<le> 3 \<and> haar 3 False = Inr [Fin (- 1), Fin 1, Fin 1]
   \<and> haar 3 True = Inr [Fin (- 4 / 3), Fin (2 / 3), Fin (2 / 3)]"
proof -
  have d: "(3::nat) div 2 = 1" "(3::nat) mod 2 = 1" "(3::nat) - 1 = 2"
    by simp_all
  have r: "\<And>x::fval. replicate 2 x = [x, x]" "\<And>x::fval. replicate 1 x = [x]"
    by (simp_all add: numeral_2_eq_2)
  from haar_halves [of 3] show ?thesis
    unfolding d r by simp
qed

section \<open>Claims about the kernel families\<close>

text \<open>
  Claim C1, as amended. For each of the eight kernel functions and every \<open>L \<ge> 2\<close>
  (any finite shape parameter and end points, with or without \<open>zn\<close>) the call returns
  an array of length exactly \<open>L\<close>. With \<open>zn\<close> set, a returned kernel that contains only
  finite values sums to zero, and each of its values lies in \<open>[-2, 2]\<close>: the mean is
  subtracted after the rescaling to \<open>[-1, 1]\<close>, so the interval \<open>[-1, 1]\<close> is not kept.
\<close>

theorem kernel_length_sum_range:
  assumes "2 \<le> L"
  shows "\<forall>r \<in> set [haar L zn,
                    power_law_zero_cusp L b zn s e, power_law_cusp L b zn s e,
                    power_zero_cusp L b zn s e, power_cusp L b zn s e,
                    pitchfork L b zn s e,
                    exp_zero_cusp L b zn s e, exp_cusp L b zn s e].
           \<exists>k. r = Inr k \<and> length k = L
             \<and> (zn \<longrightarrow> list_all is_fin k \<longrightarrow>
                  np_sum k = Fin 0 \<and> (\<forall>v\<in>set k. \<exists>x. v = Fin x \<and> - 2 \<le> x \<and> x \<le> 2))"
proof -
  have L: "0 < L"
    using assms by simp
  note kr = kernel_result_haar [OF L] kernel_result_power_law_zero_cusp [OF L]
    kernel_result_power_law_cusp [OF L] kernel_result_power_zero_cusp [OF L]
    kernel_result_power_cusp [OF L] kernel_result_pitchfork [OF L]
    kernel_result_exp_zero_cusp [OF L] kernel_result_exp_cusp [OF L]
  show ?thesis
    by (simp only: list.set ball_simps ball_empty) (intro conjI kernel_result_props kr TrueI)
qed

theorem kernel_length_sum_range_witness:
  "(2::nat) \<le> 3
   \<and> haar 3 True = Inr [Fin (- 4 / 3), Fin (2 / 3), Fin (2 / 3)]
   \<and> list_all is_fin [Fin (- 4 / 3), Fin (2 / 3), Fin (2 / 3)]
   \<and> length [Fin (- 4 / 3), Fin (2 / 3), Fin (2 / 3)] = 3
   \<and> np_sum [Fin (- 4 / 3), Fin (2 / 3), Fin (2 / 3)] = Fin 0
   \<and> power_cusp 3 1 True 1 4 = Inr [Fin (2 / 3), Fin (- 4 / 3), Fin (2 / 3)]
   \<and> list_all is_fin [Fin (2 / 3), Fin (- 4 / 3), Fin (2 / 3)]
   \<and> np_sum [Fin (2 / 3), Fin (- 4 / 3), Fin (2 / 3)] = Fin 0
   \<and> (\<exists>x. Fin (- 4 / 3) = Fin x \<and> - 2 \<le> x \<and> x \<le> 2)
   \<and> (\<exists>x. Fin (2 / 3) = Fin x \<and> - 2 \<le> x \<and> x \<le> 2)"
  using kernel_length_sum_range [of 3 True 1 1 4]
  by (simp add: haar_three power_cusp_three)

text \<open>
  Claim C1 as stated fails in two ways. \<open>haar(3)\<close> is \<open>[-4/3, 2/3, 2/3]\<close>, whose first
  value is below \<open>-1 - eps\<close> for every \<open>eps < 1/3\<close>. And \<open>power_law_cusp(2, 1)\<close> with the
  default end points 1 and 4, a valid input, is \<open>[NaN, NaN]\<close>: the two normalised
  halves cancel to a constant array, so its values are not in any interval and do not
  sum to zero.
\<close>

theorem kernel_range_counterexample:
  "haar 3 True = Inr [Fin (- 4 / 3), Fin (2 / 3), Fin (2 / 3)]
   \<and> (- 4 / 3 :: real) < - 1 - 1 / 1000000
   \<and> power_law_cusp 2 1 True 1 4 = Inr [NaN, NaN]
   \<and> np_sum [NaN, NaN] = NaN"
  by (simp add: haar_three power_law_cusp_two np_sum_def)

text \<open>
  Claim C5. For every \<open>L \<ge> 2\<close> and every \<open>b\<close> (and either setting of \<open>zn\<close>, any end
  points), \<open>power_law_zero_cusp\<close> returns an array \<open>h\<close> of length \<open>L\<close>, and
  \<open>power_law_cusp\<close> is the elementwise sum of \<open>h\<close> and its index-reversed copy, to
  which only the outer \<open>zero_norm\<close> is then applied when \<open>zn\<close> is set.
\<close>

theorem power_law_cusp_composition:
  assumes "2 \<le> L"
  shows "\<exists>h. power_law_zero_cusp L b zn s e = Inr h \<and> length h = L
           \<and> power_law_cusp L b zn s e
               = (if zn then zero_norm (reverse_sum h) else Inr (reverse_sum h))"
proof -
  have "0 < L"
    using assms by simp
  from kernel_result_power_law_zero_cusp [OF this, of zn b s e]
  obtain h where h: "power_law_zero_cusp L b zn s e = Inr h" "length h = L"
    by (auto simp: kernel_result_def)
  have "power_law_cusp L b zn s e
          = (if zn then zero_norm (reverse_sum h) else Inr (reverse_sum h))"
    by (simp add: power_law_cusp_def h(1) np_add_rev)
  with h show ?thesis
    by blast
qed

theorem power_law_cusp_composition_witness:
  "(2::nat) \<le> 2
   \<and> power_law_zero_cusp 2 1 False 1 4 = Inr [Fin 0, Fin (1 / 4)]
   \<and> power_law_cusp 2 1 False 1 4 = Inr [Fin (1 / 4), Fin (1 / 4)]"
proof -
  have "[0..<2] = [0, Suc 0]"
    by (simp add: numeral_2_eq_2)
  then have "reverse_sum [Fin 0, Fin (1 / 4)] = [Fin (1 / 4), Fin (1 / 4)]"
    by (simp add: reverse_sum_def)
  with power_law_cusp_composition [of 2 1 False 1 4] show ?thesis
    by (simp add: power_law_zero_cusp_two_raw)
qed

section \<open>Claims about the utilities\<close>





lemma np_mean_Fin: "rs \<noteq> [] \<Longrightarrow> np_mean (map Fin rs) = Fin (mean_real rs)"
  by (simp add: np_mean_def np_sum_Fin mean_real_def)

lemma mean_real_nonneg: "\<forall>x\<in>set rs. 0 \<le> x \<Longrightarrow> 0 \<le> mean_real rs"
  by (simp add: mean_real_def sum_list_nonneg)

lemma np_std_Fin:
  assumes "rs \<noteq> []"
  shows "np_std (map Fin rs) = Fin (std_real rs)"
proof -
  let ?sq = "map (\<lambda>x. (x - mean_real rs) * (x - mean_real rs)) rs"
  have sq: "map (\<lambda>v. fmul v v) (map (\<lambda>v. fsub v (Fin (mean_real rs))) (map Fin rs))
              = map Fin ?sq"
    by simp
  have "?sq \<noteq> []"
    using assms by simp
  from np_mean_Fin [OF this] have m: "np_mean (map Fin ?sq) = Fin (mean_real ?sq)" .
  have "0 \<le> mean_real ?sq"
    by (rule mean_real_nonneg) simp
  then show ?thesis
    unfolding np_std_def Let_def np_mean_Fin [OF assms] sq m
    by (simp add: std_real_def)
qed


text \<open>
  Claim C3, as amended. \<open>normalize(arr, stats=True)\<close> returns the triple
  \<open>(z, mean, std)\<close>, where \<open>mean\<close> and \<open>std\<close> are the mean and the population standard
  deviation of \<open>arr\<close> and \<open>z\<close> is \<open>renormalize(arr, mean, std)\<close>; with the default
  \<open>stats=False\<close> it returns \<open>z\<close> alone. \<open>renormalize(arr, mean, std)\<close> maps each entry
  \<open>x\<close> to \<open>(x - mean) / std\<close> for the supplied \<open>mean\<close> and \<open>std\<close>, whatever array they
  were fitted on.
\<close>

theorem normalize_stats_triple:
  "normalize_np arr True
     = NormedStats (renormalize arr (np_mean arr) (np_std arr)) (np_mean arr) (np_std arr)
   \<and> normalize_np arr False = Normed (renormalize arr (np_mean arr) (np_std arr))
   \<and> (s \<noteq> 0 \<longrightarrow>
        renormalize (map Fin xs) (Fin m) (Fin s) = map (\<lambda>x. Fin ((x - m) / s)) xs)
   \<and> (rs \<noteq> [] \<and> std_real rs \<noteq> 0 \<longrightarrow>
        normalize_np (map Fin rs) True
          = NormedStats (map (\<lambda>x. Fin ((x - mean_real rs) / std_real rs)) rs)
              (Fin (mean_real rs)) (Fin (std_real rs)))"
proof -
  have "normalize_np (map Fin rs) True
          = NormedStats (map (\<lambda>x. Fin ((x - mean_real rs) / std_real rs)) rs)
              (Fin (mean_real rs)) (Fin (std_real rs))"
    if "rs \<noteq> []" and "std_real rs \<noteq> 0"
    using that by (simp add: normalize_np_def np_mean_Fin np_std_Fin Let_def)
  then show ?thesis
    by (simp add: normalize_np_def renormalize_def Let_def)
qed

lemma mean_std_example: "mean_real [1, 3] = 2 \<and> std_real [1, 3] = 1"
proof -
  have m: "mean_real [1, 3] = 2"
    by (simp add: mean_real_def)
  have "mean_real [1, 1] = 1"
    by (simp add: mean_real_def)
  then show ?thesis
    by (simp add: std_real_def m)
qed

theorem normalize_stats_triple_witness:
  "[1, 3] \<noteq> ([] :: real list) \<and> std_real [1, 3] \<noteq> 0 \<and> (2::real) \<noteq> 0
   \<and> normalize_np (map Fin [1, 3]) True = NormedStats [Fin (- 1), Fin 1] (Fin 2) (Fin 1)
   \<and> renormalize (map Fin [5, 6]) (Fin 1) (Fin 2) = [Fin 2, Fin (5 / 2)]"
proof -
  note t = normalize_stats_triple [of "map Fin [1, 3]" 2 "[5, 6]" 1 "[1, 3]"]
  from t have "renormalize (map Fin [5, 6]) (Fin 1) (Fin 2) = [Fin 2, Fin (5 / 2)]"
    by simp
  moreover from t [THEN conjunct2, THEN conjunct2, THEN conjunct2]
  have "normalize_np (map Fin [1, 3]) True
      = NormedStats [Fin (- 1), Fin 1] (Fin 2) (Fin 1)"
    by (simp add: mean_std_example)
  ultimately show ?thesis
    by (simp add: mean_std_example)
qed

text \<open>
  Claim C3 as stated fails: the call \<open>normalize(arr)\<close> of one argument returns the
  normalised array, not a triple.
\<close>

theorem normalize_default_counterexample:
  "normalize_np [Fin 1, Fin 3] False = Normed [Fin (- 1), Fin 1]
   \<and> normalize_np [Fin 1, Fin 3] False \<noteq> NormedStats [Fin (- 1), Fin 1] (Fin 2) (Fin 1)"
  by (simp add: normalize_np_def np_mean_def np_std_def np_sum_def Let_def)

section \<open>Claims about row_normalize and row_unnormalize\<close>












section \<open>Claims about top_k\<close>

lemma length_argsort [simp]: "length (argsort a) = length a"
  by (simp add: argsort_def)

lemma set_argsort: "set (argsort a) = {0..<length a}"
proof -
  have m: "map snd (zip a [0..<length a]) = [0..<length a]"
    by (rule map_snd_zip) simp
  have "set (argsort a) = snd ` set (zip a [0..<length a])"
    by (simp add: argsort_def)
  also have "\<dots> = set (map snd (zip a [0..<length a]))"
    by (simp only: set_map)
  also have "\<dots> = set [0..<length a]"
    by (simp only: m)
  also have "\<dots> = {0..<length a}"
    by simp
  finally show ?thesis .
qed

lemma np_argpartition_error:
  "a \<noteq> [] \<Longrightarrow>
   (np_argpartition a (- k) = Inl ValueError)
     = (int (length a) < k \<or> k \<le> - int (length a))"
  by (auto simp: np_argpartition_def Let_def)

lemma np_argpartition_ok:
  "\<not> (int (length a) < k \<or> k \<le> - int (length a)) \<Longrightarrow>
   np_argpartition a (- k) = Inr (argsort a)"
  by (auto simp: np_argpartition_def Let_def)

lemma set_slice_from: "set (slice_from i xs) \<subseteq> set xs"
  by (auto simp: slice_from_def dest: in_set_dropD)

lemma np_take_ok:
  "set inds \<subseteq> {0..<length xs} \<Longrightarrow> np_take xs inds = Inr (map (\<lambda>i. xs ! i) inds)"
  by (auto simp: np_take_def list_all_iff)

lemma length_slice_from:
  "- int (length xs) < k \<Longrightarrow> k \<le> int (length xs) \<Longrightarrow>
   int (length (slice_from (- k) xs)) = (if 0 < k then k else int (length xs) + k)"
  by (auto simp: slice_from_def)

text \<open>
  Claim C4, as amended. With as many labels as indicator values (\<open>n \<ge> 1\<close> of each),
  \<open>top_k\<close> fails, with the \<open>ValueError\<close> of \<open>np.argpartition\<close>, when \<open>k > n\<close> or
  \<open>k \<le> -n\<close>. For every other \<open>k\<close>, among them \<open>k = 0\<close> and the negative \<open>k > -n\<close>, it
  returns a list: of \<open>k\<close> pairs when \<open>k > 0\<close>, of \<open>n + k\<close> pairs otherwise.
\<close>

theorem top_k_fails_out_of_bounds:
  assumes "length words = length indices" and "indices \<noteq> []"
  shows "(int (length indices) < k \<or> k \<le> - int (length indices)
            \<longrightarrow> top_k indices words k = Inl ValueError)
       \<and> (- int (length indices) < k \<and> k \<le> int (length indices)
            \<longrightarrow> (\<exists>top. top_k indices words k = Inr top
                  \<and> int (length top) = (if 0 < k then k else int (length indices) + k)))"
proof (intro conjI impI)
  assume "int (length indices) < k \<or> k \<le> - int (length indices)"
  then have "np_argpartition indices (- k) = Inl ValueError"
    by (simp only: np_argpartition_error [OF assms(2)])
  then show "top_k indices words k = Inl ValueError"
    by (simp add: top_k_def)
next
  assume k: "- int (length indices) < k \<and> k \<le> int (length indices)"
  then have part: "np_argpartition indices (- k) = Inr (argsort indices)"
    by (intro np_argpartition_ok) auto
  let ?inds = "slice_from (- k) (argsort indices)"
  have sub: "set ?inds \<subseteq> {0..<length indices}"
    using set_slice_from [of "- k" "argsort indices"] by (simp only: set_argsort)
  then have sub': "set ?inds \<subseteq> {0..<length words}"
    by (simp only: assms(1))
  have len: "int (length ?inds) = (if 0 < k then k else int (length indices) + k)"
    using length_slice_from [of "argsort indices" k] k by simp
  let ?top = "zip (map (\<lambda>i. words ! i) ?inds) (map (\<lambda>i. indices ! i) ?inds)"
  have "top_k indices words k = Inr (rev (sort_key snd (rev ?top)))"
    by (simp add: top_k_def part np_take_ok [OF sub] np_take_ok [OF sub'] Let_def)
  moreover have "length (rev (sort_key snd (rev ?top))) = length ?inds"
    by simp
  ultimately show "\<exists>top. top_k indices words k = Inr top
      \<and> int (length top) = (if 0 < k then k else int (length indices) + k)"
    using len by (intro exI [of _ "rev (sort_key snd (rev ?top))"]) simp
qed

lemma argsort_five: "argsort [5, 1, 9, 3, 7 :: int] = [1, 3, 0, 4, 2]"
proof -
  have "[0..<5] = [0, 1, 2, 3, 4]"
    by (simp add: upt_rec)
  then show ?thesis
    by (simp add: argsort_def)
qed

lemma top_k_example:
  "top_k [5, 1, 9, 3, 7 :: int] [''a'', ''b'', ''c'', ''d'', ''e''] 2
     = Inr [(''c'', 9), (''e'', 7)]"
  by (simp add: top_k_def np_argpartition_def argsort_five slice_from_def np_take_def)

theorem top_k_fails_out_of_bounds_witness:
  "length [''a'', ''b'', ''c'', ''d'', ''e''] = length [5, 1, 9, 3, 7 :: int]
   \<and> [5, 1, 9, 3, 7 :: int] \<noteq> []
   \<and> int (length [5, 1, 9, 3, 7 :: int]) < 6
   \<and> top_k [5, 1, 9, 3, 7 :: int] [''a'', ''b'', ''c'', ''d'', ''e''] 6 = Inl ValueError
   \<and> - int (length [5, 1, 9, 3, 7 :: int]) < 2 \<and> 2 \<le> int (length [5, 1, 9, 3, 7 :: int])
   \<and> top_k [5, 1, 9, 3, 7 :: int] [''a'', ''b'', ''c'', ''d'', ''e''] 2
       = Inr [(''c'', 9), (''e'', 7)]
   \<and> int (length [(''c'', 9 :: int), (''e'', 7)]) = 2"
  using top_k_fails_out_of_bounds [of "[''a'', ''b'', ''c'', ''d'', ''e'']" "[5, 1, 9, 3, 7 :: int]" 6]
    top_k_example
  by simp

text \<open>
  Claim C4 as stated fails for \<open>k \<le> 0\<close>: \<open>top_k\<close> with \<open>k = 0\<close> returns all the pairs,
  and with \<open>k = -1\<close> all but one, and neither call fails.
\<close>

theorem top_k_nonpositive_counterexample:
  "top_k [5, 1, 9 :: int] [''a'', ''b'', ''c''] 0
     = Inr [(''c'', 9), (''a'', 5), (''b'', 1)]
   \<and> top_k [5, 1, 9 :: int] [''a'', ''b'', ''c''] (- 1) = Inr [(''c'', 9), (''a'', 5)]"
proof -
  have "[0..<3] = [0, 1, 2]"
    by (simp add: upt_rec)
  then have "argsort [5, 1, 9 :: int] = [1, 0, 2]"
    by (simp add: argsort_def)
  then show ?thesis
    by (simp add: top_k_def np_argpartition_def slice_from_def np_take_def)
qed

section \<open>Claims about the weighting functions\<close>

text \<open>
  Claim C9. \<open>register_weighting_function\<close> returns the function it was given, and the
  new state is the old one with that function appended to the registry: the entries
  registered before keep their places, and the new function is the last entry.
\<close>

theorem register_weighting_function_appends:
  "fst (register_weighting_function f st) = f
   \<and> snd (register_weighting_function f st)
       = st\<lparr>registered_weighting_functions := registered_weighting_functions st @ [f]\<rparr>
   \<and> registered_weighting_functions (snd (register_weighting_function f st))
       = registered_weighting_functions st @ [f]
   \<and> take (length (registered_weighting_functions st))
        (registered_weighting_functions (snd (register_weighting_function f st)))
       = registered_weighting_functions st
   \<and> last (registered_weighting_functions (snd (register_weighting_function f st))) = f
   \<and> length (registered_weighting_functions (snd (register_weighting_function f st)))
       = Suc (length (registered_weighting_functions st))"
  by (simp add: register_weighting_function_def)








end
